theory Spec2Isabelle
  imports Main
begin

section \<open>Errors\<close>

text \<open>
  The exceptions the program can raise, as values. \<open>LinkBotSeenException\<close> is the
  program's own class; the others are Python's built-in ones. \<open>ExternalError\<close> stands
  for whatever an external client (issue tracker, ticketing system) raises.
\<close>

datatype error =
    LinkBotSeenException string
  | IndexError
  | KeyError string
  | TypeError string
  | ValueError string
  | Exception string
  | ExternalError string

section \<open>String formatting\<close>

text \<open>
  Python's \<open>template % args\<close> for string arguments, restricted to the two directives
  the program's templates use: \<open>%s\<close> takes the next argument, \<open>%%\<close> is a literal
  percent sign. A \<open>%s\<close> with no argument left and arguments left over at the end are
  both a \<open>TypeError\<close>; a template that ends in a lone \<open>%\<close> is a \<open>ValueError\<close>.
  Any other character after \<open>%\<close> is reported as \<open>ValueError\<close> too (Python does so for
  the characters that are no conversion; the conversions other than \<open>%s\<close> are outside
  this model).
\<close>

fun fmt :: "string \<Rightarrow> string list \<Rightarrow> error + string" where
  "fmt [] args =
     (if args = [] then Inr []
      else Inl (TypeError ''not all arguments converted during string formatting''))"
| "fmt [c] args =
     (if c = CHR ''%'' then Inl (ValueError ''incomplete format'')
      else if args = [] then Inr [c]
      else Inl (TypeError ''not all arguments converted during string formatting''))"
| "fmt (c # d # cs) args =
     (if c = CHR ''%'' then
        (if d = CHR ''%'' then
           (case fmt cs args of Inl e \<Rightarrow> Inl e | Inr r \<Rightarrow> Inr (CHR ''%'' # r))
         else if d = CHR ''s'' then
           (case args of
              [] \<Rightarrow> Inl (TypeError ''not enough arguments for format string'')
            | a # as \<Rightarrow> (case fmt cs as of Inl e \<Rightarrow> Inl e | Inr r \<Rightarrow> Inr (a @ r)))
         else Inl (ValueError ''unsupported format character''))
      else (case fmt (d # cs) args of Inl e \<Rightarrow> Inl e | Inr r \<Rightarrow> Inr (c # r)))"

section \<open>The matcher\<close>

text \<open>
  \<open>LinkBot.match\<close> is
  \<^verbatim>\<open>re.findall(r'(\A|\W)(%s)(\W|\Z)' % self._match, text, flags=re.I)\<close>.
  A character of the model is a code point below 256, and \<open>of_char\<close> gives the code
  point. On these, \<open>\w\<close> of a pattern on \<open>str\<close> holds for the ASCII letters and digits,
  the underscore, and the letters and numeric characters of the upper half: \<open>0xAA\<close>,
  \<open>0xB2\<close>, \<open>0xB3\<close>, \<open>0xB5\<close>, \<open>0xB9\<close>, \<open>0xBA\<close>, \<open>0xBC\<close> to \<open>0xBE\<close>, and \<open>0xC0\<close> to
  \<open>0xFF\<close> without \<open>0xD7\<close> and \<open>0xF7\<close>. \<open>[0-9]\<close>, as the ticketing-system client has it,
  is the ten ASCII digits only.
\<close>

definition in_codes :: "nat \<Rightarrow> nat \<Rightarrow> char \<Rightarrow> bool" where
  "in_codes lo hi c = (lo \<le> (of_char c :: nat) \<and> (of_char c :: nat) \<le> hi)"

definition is_digit :: "char \<Rightarrow> bool" where
  "is_digit c = (48 \<le> (of_char c :: nat) \<and> (of_char c :: nat) \<le> 57)"

definition is_upper :: "char \<Rightarrow> bool" where
  "is_upper c = (65 \<le> (of_char c :: nat) \<and> (of_char c :: nat) \<le> 90)"

definition is_lower :: "char \<Rightarrow> bool" where
  "is_lower c = (97 \<le> (of_char c :: nat) \<and> (of_char c :: nat) \<le> 122)"

definition is_word :: "char \<Rightarrow> bool" where
  "is_word c =
     (is_digit c \<or> is_upper c \<or> is_lower c \<or> c = CHR ''_''
      \<or> in_codes 170 170 c \<or> in_codes 178 179 c \<or> in_codes 181 181 c
      \<or> in_codes 185 186 c \<or> in_codes 188 190 c \<or> in_codes 192 214 c
      \<or> in_codes 216 246 c \<or> in_codes 248 255 c)"

text \<open>
  The lower case that \<open>re.I\<close> compares by: the upper-case letters are \<open>A\<close> to \<open>Z\<close> and
  \<open>0xC0\<close> to \<open>0xDE\<close> without \<open>0xD7\<close>, and the lower-case letter is 32 above, which is
  bit 5 of the code point set. Every other code point below 256 is its own lower case.
\<close>

definition lower :: "char \<Rightarrow> char" where
  "lower c =
     (if is_upper c \<or> in_codes 192 214 c \<or> in_codes 216 222 c then
        (case c of Char b0 b1 b2 b3 b4 b5 b6 b7 \<Rightarrow> Char b0 b1 b2 b3 b4 True b6 b7)
      else c)"

text \<open>
  The characters with a meaning of their own in a regular expression. \<open>LinkBot.match\<close>
  puts the configured pattern into the expression as it is; a pattern without any of
  these characters is plain, and stands for its own text up to the case of letters.
  The matcher below is the expression for a plain pattern.
\<close>

definition special :: "char list" where
  "special =
     [CHR ''.'', CHR ''^'', CHR ''$'', CHR ''*'', CHR ''+'', CHR ''?'', CHR ''{'', CHR ''}'',
      CHR ''['', CHR '']'', CHR 0x5C, CHR ''|'', CHR ''('', CHR '')'']"

definition plain :: "string \<Rightarrow> bool" where
  "plain p = list_all (\<lambda>c. c \<notin> set special) p"

text \<open>The pattern matches a string when the two are equal up to the case of letters.\<close>

definition ieq :: "string \<Rightarrow> string \<Rightarrow> bool" where
  "ieq a b = (map lower a = map lower b)"

text \<open>The pattern \<open>p\<close> matches at the front of \<open>s\<close>.\<close>

definition pat_at :: "string \<Rightarrow> string \<Rightarrow> bool" where
  "pat_at p s = (length p \<le> length s \<and> ieq (take (length p) s) p)"

text \<open>
  The closing group \<open>(\W|\Z)\<close> on the rest of the text: it takes one non-word
  character, or nothing at the end of the text; the result is the number of characters
  taken.
\<close>

definition closing :: "string \<Rightarrow> nat option" where
  "closing r = (case r of [] \<Rightarrow> Some 0 | c # _ \<Rightarrow> if is_word c then None else Some 1)"

text \<open>
  The pattern and the closing group after the opening group has taken \<open>k\<close> characters
  of \<open>s\<close>: the label is the text the pattern matched, the number is the length of the
  whole match.
\<close>

definition try_from :: "string \<Rightarrow> string \<Rightarrow> nat \<Rightarrow> (string \<times> nat) option" where
  "try_from p s k =
     (let r = drop k s in
      if pat_at p r then
        (case closing (drop (length p) r) of
           Some j \<Rightarrow> Some (take (length p) r, k + length p + j)
         | None \<Rightarrow> None)
      else None)"

text \<open>
  One attempt of the whole expression at the front of \<open>s\<close>. The opening group
  \<open>(\A|\W)\<close> tries \<open>\A\<close> first, which holds only at the start of the text, and then
  one non-word character.
\<close>

definition match_here :: "bool \<Rightarrow> string \<Rightarrow> string \<Rightarrow> (string \<times> nat) option" where
  "match_here at_start p s =
     (case (if at_start then try_from p s 0 else None) of
        Some r \<Rightarrow> Some r
      | None \<Rightarrow>
          (case s of
             [] \<Rightarrow> None
           | c # _ \<Rightarrow> if is_word c then None else try_from p s 1))"

lemma closing_le: "closing r = Some j \<Longrightarrow> j \<le> length r"
  by (cases r) (auto simp: closing_def split: if_splits)

lemma try_from_le:
  assumes "try_from p s k = Some (lab, n)" and "k \<le> length s"
  shows "n \<le> length s"
proof -
  from assms(1) obtain j where p: "pat_at p (drop k s)"
    and j: "closing (drop (length p) (drop k s)) = Some j" and n: "n = k + length p + j"
    by (auto simp: try_from_def Let_def split: if_splits option.splits)
  from j have "j \<le> length (drop (length p) (drop k s))" by (rule closing_le)
  moreover from p have "length p \<le> length s - k" by (simp add: pat_at_def)
  ultimately show ?thesis using n assms(2) by simp
qed

lemma match_here_le: "match_here a p s = Some (lab, n) \<Longrightarrow> n \<le> length s"
  by (auto simp: match_here_def split: if_splits option.splits list.splits
      dest: try_from_le)

text \<open>
  \<open>findall\<close> scans from left to right; after a match it goes on behind the match, so
  matches do not overlap; without a match it moves on by one character. The only empty
  match is the one of an empty pattern on an empty text. The result keeps the second
  group of each match, which is what the dispatcher reads (\<open>match[1]\<close>).
\<close>

function findall_from :: "bool \<Rightarrow> string \<Rightarrow> string \<Rightarrow> string list" where
  "findall_from at_start p s =
     (case match_here at_start p s of
        Some (lab, n) \<Rightarrow> lab # (if n = 0 then [] else findall_from False p (drop n s))
      | None \<Rightarrow> (case s of [] \<Rightarrow> [] | _ # cs \<Rightarrow> findall_from False p cs))"
  by pat_completeness auto
termination
proof (relation "measure (\<lambda>(a, p, s). length s)")
  show "wf (measure (\<lambda>(a, p, s). length s))" by simp
next
  fix at_start :: bool and p s :: string and x2 :: "string \<times> nat" and lab :: string and n :: nat
  assume "match_here at_start p s = Some x2" and "(lab, n) = x2" and "n \<noteq> 0"
  then have "n \<le> length s" and "0 < n"
    using match_here_le [of at_start p s lab n] by auto
  then show "((False, p, drop n s), (at_start, p, s)) \<in> measure (\<lambda>(a, p, s). length s)"
    by simp
next
  fix at_start :: bool and p s :: string and x21 :: char and cs :: string
  assume "s = x21 # cs"
  then show "((False, p, cs), (at_start, p, s)) \<in> measure (\<lambda>(a, p, s). length s)"
    by simp
qed

declare findall_from.simps [simp del]

definition match :: "string \<Rightarrow> string \<Rightarrow> string list" where
  "match p text = findall_from True p text"

section \<open>Reply text\<close>

text \<open>\<open>LinkBot._escape_html\<close>: a character of the table is replaced, any other is kept.\<close>

definition escaped :: "char \<Rightarrow> string option" where
  "escaped = map_of [(CHR ''&'', ''&amp;''), (CHR ''<'', ''&lt;''), (CHR ''>'', ''&gt;'')]"

definition escape_html :: "string \<Rightarrow> string" where
  "escape_html text = concat (map (\<lambda>c. case escaped c of Some e \<Rightarrow> e | None \<Rightarrow> [c]) text)"

text \<open>Python's \<open>sep.join(lines)\<close>.\<close>

fun join :: "string \<Rightarrow> string list \<Rightarrow> string" where
  "join sep [] = []"
| "join sep [x] = x"
| "join sep (x # y # ys) = x @ sep @ join sep (y # ys)"

text \<open>The separator of the lines of an enriched reply, a line feed and a quote mark.\<close>

definition quote_sep :: string where
  "quote_sep = [CHR 0x0A, CHR ''>'', CHR '' '']"

section \<open>The ticketing-system client\<close>

text \<open>
  \<open>ServiceNowClient\<close> of \<open>linkbot/clients.py\<close>. The table of a ticket number is found
  from the number without its digits. The HTTP request itself is outside the program:
  its outcome is a parameter of the model (\<open>sn_http\<close> below).
\<close>

definition table_map :: "(string \<times> string) list" where
  "table_map =
     [(''REQ'', ''u_simple_requests''), (''INC'', ''incident''),
      (''RTASK'', ''u_request_task''), (''ITASK'', ''u_incident_task'')]"

definition table_from_number :: "string \<Rightarrow> error + string" where
  "table_from_number number =
     (let ticket_type = filter (\<lambda>c. \<not> is_digit c) number in
      case map_of table_map ticket_type of
        None \<Rightarrow> Inl (KeyError (''unrecognized service now type '' @ ticket_type))
      | Some table \<Rightarrow>
          if table = [] then Inl (KeyError (''unrecognized service now type '' @ ticket_type))
          else Inr table)"

definition client_link :: "string \<Rightarrow> string \<Rightarrow> error + string" where
  "client_link host number =
     (case table_from_number number of
        Inl e \<Rightarrow> Inl e
      | Inr table \<Rightarrow>
          Inr (host @ ''/'' @ table @ ''.do?sysparm_table='' @ table
               @ ''&sysparm_query=number%3D'' @ number))"

text \<open>
  A record as the client returns it: the seven requested fields, each the display value
  the service sent (an empty string where it sent none).
\<close>

record ServiceNowRecord =
  short_description :: string
  number :: string
  parent :: string
  state :: string
  assigned_to :: string
  opened_by :: string
  sys_updated_on :: string

text \<open>\<open>ServiceNowRecord.items(pretty_names=True)\<close>, in the order of the field table.\<close>

definition items :: "ServiceNowRecord \<Rightarrow> (string \<times> string) list" where
  "items r =
     [(''Subject'', short_description r), (''Number'', number r), (''Parent'', parent r),
      (''State'', state r), (''Assigned To'', assigned_to r), (''Opened By'', opened_by r),
      (''Last Update'', sys_updated_on r)]"

text \<open>What the HTTP request of \<open>ServiceNowClient.get\<close> comes back with.\<close>

datatype sn_reply =
    Request_failed string
  | Status_not_200
  | Empty_result
  | Result ServiceNowRecord

definition client_get ::
  "(string \<Rightarrow> string \<Rightarrow> sn_reply) \<Rightarrow> string \<Rightarrow> error + ServiceNowRecord" where
  "client_get http num =
     (case table_from_number num of
        Inl e \<Rightarrow> Inl e
      | Inr table \<Rightarrow>
          (case http table num of
             Request_failed msg \<Rightarrow> Inl (ExternalError msg)
           | Status_not_200 \<Rightarrow> Inl (KeyError ''response'')
           | Empty_result \<Rightarrow> Inl (KeyError (num @ '' not found''))
           | Result r \<Rightarrow> Inr r))"

section \<open>The issue-tracker client\<close>

text \<open>
  What \<open>JiraLinkBot.message\<close> reads of an issue: the summary, the display names of the
  reporter and of the assignee (\<open>None\<close> where the issue has no such person) and the name
  of the status. The lookup is outside the program and a parameter of the model
  (\<open>jira_issue\<close> below).
\<close>

record issue =
  summary :: string
  reporter :: "string option"
  assignee :: "string option"
  status :: string

text \<open>\<open>lambda person: person and person.displayName or 'None'\<close>\<close>

definition get_name :: "string option \<Rightarrow> string" where
  "get_name person =
     (case person of None \<Rightarrow> ''None'' | Some n \<Rightarrow> if n = [] then ''None'' else n)"

section \<open>Configuration, responders and the store\<close>

text \<open>
  A responder keeps references to list objects: \<open>_quips\<close> is the list object of the
  configuration (or the list object of the class attribute \<open>LinkBot.QUIPS\<close>), and
  \<open>_quiplist\<close> is whatever list object it was last bound to. Lists are mutated in
  place (\<open>remove\<close>), so the lists live in a store and the responder holds addresses.
  \<open>_seen\<close> is a list of the responder's own that nothing else refers to; it is kept in
  the responder.
\<close>

type_synonym ref = nat

datatype link_class = LinkBot | JiraLinkBot | ServiceNowBot

record conf =
  MATCH :: "string option"
  LINK :: "string option"
  QUIPS :: "ref option"
  LINK_CLASS :: "string option"
  HOST :: string

record responder =
  bot_class :: link_class
  bot_match :: "string option"
  bot_link :: string
  bot_quips :: ref
  bot_quiplist :: ref
  bot_seen :: "string list"
  bot_host :: string

datatype json =
    JNull
  | JBool bool
  | JNum int
  | JStr string
  | JArr "json list"
  | JObj "(string \<times> json) list"

text \<open>
  The mutable world of a dispatcher: the store of list objects with its next unused
  address, the number of random draws made so far, and the replies posted to the
  transport, each with its channel (the sender's identity and the parse mode are the
  same in every post and left out).
\<close>

record world =
  store :: "ref \<Rightarrow> string list"
  fresh :: ref
  draws :: nat
  posted :: "(json \<times> string) list"

text \<open>
  What the program reads from outside: the outcomes of the random generator, the
  issue-tracker lookup (by host and label) and the ticketing-system request (by host,
  table and number).
\<close>

record env =
  rnd :: "nat \<Rightarrow> nat"
  jira_issue :: "string \<Rightarrow> string \<Rightarrow> error + issue"
  sn_http :: "string \<Rightarrow> string \<Rightarrow> string \<Rightarrow> sn_reply"

definition LinkBot_QUIPS :: "string list" where
  "LinkBot_QUIPS =
     [''%s'',
      ''linkbot noticed a link!  %s'',
      ''Oh, here it is... %s'',
      ''Maybe this, %s, will help?'',
      ''Click me!  %s'',
      ''Click my shiny metal link!  %s'',
      ''Here, let me link that for you... %s'',
      ''Couldn't help but notice %s was mentioned...'',
      ''Not that I was eavesdropping, but did you mention %s?'',
      ''hmmmm, did you mean %s?'',
      ''%s...  Mama said there'd be days like this...'',
      ''%s?  An epic, yet approachable tale...'',
      ''%s?  Reminds me of a story...'']"

text \<open>The address of the list object of the class attribute \<open>LinkBot.QUIPS\<close>.\<close>

definition QUIPS_ref :: ref where
  "QUIPS_ref = 0"

text \<open>
  \<open>LinkBot.__init__\<close> (the subclasses add their client, which the model reads from
  \<open>env\<close>). \<open>self._quiplist = []\<close> makes a new list object.
\<close>

definition init :: "conf \<Rightarrow> link_class \<Rightarrow> world \<Rightarrow> responder \<times> world" where
  "init c cls w =
     (\<lparr>bot_class = cls,
       bot_match = MATCH c,
       bot_link = (case LINK c of None \<Rightarrow> ''%s|%s'' | Some l \<Rightarrow> l),
       bot_quips = (case QUIPS c of None \<Rightarrow> QUIPS_ref | Some r \<Rightarrow> r),
       bot_quiplist = fresh w,
       bot_seen = [],
       bot_host = HOST c\<rparr>,
      w\<lparr>store := (store w)(fresh w := []), fresh := Suc (fresh w)\<rparr>)"

text \<open>\<open>LinkBot.match\<close>; a missing \<open>MATCH\<close> is \<open>None\<close> and formats as the text \<open>None\<close>.\<close>

definition bot_pattern :: "responder \<Rightarrow> string" where
  "bot_pattern b = (case bot_match b of None \<Rightarrow> ''None'' | Some m \<Rightarrow> m)"

definition reset :: "responder \<Rightarrow> responder" where
  "reset b = b\<lparr>bot_seen := []\<rparr>"

text \<open>
  \<open>LinkBot._quip\<close>. An empty pool is rebound to the object \<open>_quips\<close> refers to (no
  copy is made). \<open>choice\<close> on an empty list raises \<open>IndexError\<close>, which is caught and
  gives the link alone. Otherwise the drawn quip is removed from the pool object in
  place, at its first occurrence, and the link is formatted into it; an error of the
  formatting is not caught.
\<close>

definition quip :: "env \<Rightarrow> string \<Rightarrow> responder \<Rightarrow> world \<Rightarrow> (error + string) \<times> responder \<times> world" where
  "quip e lnk b w =
     (let b1 = (if length (store w (bot_quiplist b)) = 0
                then b\<lparr>bot_quiplist := bot_quips b\<rparr> else b);
          pool = store w (bot_quiplist b1)
      in if pool = [] then (Inr lnk, b1, w)
         else
           (let q = pool ! (rnd e (draws w) mod length pool);
                w1 = w\<lparr>store := (store w)(bot_quiplist b1 := remove1 q pool),
                       draws := Suc (draws w)\<rparr>
            in (fmt q [lnk], b1, w1)))"

definition message_text :: "env \<Rightarrow> string \<Rightarrow> responder \<Rightarrow> world \<Rightarrow> (error + string) \<times> responder \<times> world" where
  "message_text e lnk b w = quip e lnk b w"

text \<open>\<open>LinkBot.message\<close>\<close>

definition LinkBot_message :: "env \<Rightarrow> string \<Rightarrow> responder \<Rightarrow> world \<Rightarrow> (error + string) \<times> responder \<times> world" where
  "LinkBot_message e link_label b w =
     (if link_label \<in> set (bot_seen b) then (Inl (LinkBotSeenException link_label), b, w)
      else
        (let b1 = b\<lparr>bot_seen := bot_seen b @ [link_label]\<rparr> in
         case fmt (bot_link b1) [link_label, link_label] of
           Inl err \<Rightarrow> (Inl err, b1, w)
         | Inr lnk \<Rightarrow> message_text e lnk b1 w))"

text \<open>
  \<open>JiraLinkBot.message\<close>: the reply of the base class, and the four lines of the issue
  when the lookup succeeds. Every exception of the lookup is caught.
\<close>

definition JiraLinkBot_message :: "env \<Rightarrow> string \<Rightarrow> responder \<Rightarrow> world \<Rightarrow> (error + string) \<times> responder \<times> world" where
  "JiraLinkBot_message e link_label b w =
     (case LinkBot_message e link_label b w of
        (Inl err, b1, w1) \<Rightarrow> (Inl err, b1, w1)
      | (Inr msg, b1, w1) \<Rightarrow>
          (case jira_issue e (bot_host b1) link_label of
             Inl err \<Rightarrow> (Inr msg, b1, w1)
           | Inr i \<Rightarrow>
               (let lines = map escape_html
                      [summary i,
                       ''*Reporter* '' @ get_name (reporter i),
                       ''*Assignee* '' @ get_name (assignee i),
                       ''*Status* '' @ status i]
                in (Inr (join quote_sep (msg # lines)), b1, w1))))"

text \<open>\<open>ServiceNowBot._strlink\<close>\<close>

definition strlink :: "string \<Rightarrow> string \<Rightarrow> error + string" where
  "strlink host link_label =
     (case client_link host link_label of
        Inl err \<Rightarrow> Inl err
      | Inr lnk \<Rightarrow> Inr (''<'' @ lnk @ ''|'' @ link_label @ ''>''))"

text \<open>The loop of \<open>ServiceNowBot.message\<close> over the fields of the record.\<close>

fun record_lines :: "string \<Rightarrow> (string \<times> string) list \<Rightarrow> string list \<Rightarrow> error + string list" where
  "record_lines host [] lines = Inr lines"
| "record_lines host ((key, val) # kvs) lines =
     (if key = ''Subject'' then
        record_lines host kvs (lines @ [if val = [] then ''No subject'' else val])
      else if key = ''Parent'' \<and> val \<noteq> [] then
        (case strlink host val of
           Inl err \<Rightarrow> Inl err
         | Inr lnk \<Rightarrow> record_lines host kvs (lines @ [''*'' @ key @ ''* '' @ lnk]))
      else if val \<noteq> [] \<and> key \<noteq> ''Number'' then
        record_lines host kvs (lines @ [''*'' @ key @ ''* '' @ val])
      else record_lines host kvs lines)"

text \<open>
  \<open>ServiceNowBot.message\<close>. It overrides the method of the base class and does not
  call it: the lookup comes first and its exception is not caught.
\<close>

definition ServiceNowBot_message :: "env \<Rightarrow> string \<Rightarrow> responder \<Rightarrow> world \<Rightarrow> (error + string) \<times> responder \<times> world" where
  "ServiceNowBot_message e link_label b w =
     (case client_get (sn_http e (bot_host b)) link_label of
        Inl err \<Rightarrow> (Inl err, b, w)
      | Inr r \<Rightarrow>
          (case strlink (bot_host b) link_label of
             Inl err \<Rightarrow> (Inl err, b, w)
           | Inr lnk \<Rightarrow>
               (case quip e lnk b w of
                  (Inl err, b1, w1) \<Rightarrow> (Inl err, b1, w1)
                | (Inr q, b1, w1) \<Rightarrow>
                    (case record_lines (bot_host b1) (items r) [q] of
                       Inl err \<Rightarrow> (Inl err, b1, w1)
                     | Inr lines \<Rightarrow> (Inr (join quote_sep lines), b1, w1)))))"

text \<open>\<open>bot.message\<close>, by the class of the responder.\<close>

definition message :: "env \<Rightarrow> string \<Rightarrow> responder \<Rightarrow> world \<Rightarrow> (error + string) \<times> responder \<times> world" where
  "message e link_label b w =
     (case bot_class b of
        LinkBot \<Rightarrow> LinkBot_message e link_label b w
      | JiraLinkBot \<Rightarrow> JiraLinkBot_message e link_label b w
      | ServiceNowBot \<Rightarrow> ServiceNowBot_message e link_label b w)"

section \<open>The dispatcher\<close>

text \<open>
  An event is the dictionary that \<open>json.loads\<close> returns for the payload. Python's
  truth value of a JSON value decides whether \<open>bot_id\<close> counts as present.
\<close>

type_synonym event = "string \<Rightarrow> json option"

fun truthy :: "json \<Rightarrow> bool" where
  "truthy JNull = False"
| "truthy (JBool b) = b"
| "truthy (JNum n) = (n \<noteq> 0)"
| "truthy (JStr s) = (s \<noteq> [])"
| "truthy (JArr xs) = (xs \<noteq> [])"
| "truthy (JObj kvs) = (kvs \<noteq> [])"

text \<open>
  The inner loop of \<open>process_slack_message\<close>, over the matches of one responder. The
  arguments of \<open>post_message\<close> are evaluated from left to right, \<open>j['channel']\<close> before
  \<open>bot.message\<close>. Only \<open>LinkBotSeenException\<close> is caught; any other exception leaves
  the loop and the function, with the responder and the world as they are then. The
  transport is outside the program: \<open>post_message\<close> is taken to accept the reply, which
  is added to the posted replies.
\<close>

fun for_matches ::
  "env \<Rightarrow> event \<Rightarrow> string list \<Rightarrow> responder \<Rightarrow> world \<Rightarrow> error option \<times> responder \<times> world" where
  "for_matches e j [] b w = (None, b, w)"
| "for_matches e j (m # ms) b w =
     (case j ''channel'' of
        None \<Rightarrow> (Some (KeyError ''channel''), b, w)
      | Some ch \<Rightarrow>
          (case message e m b w of
             (Inl (LinkBotSeenException l), b1, w1) \<Rightarrow> for_matches e j ms b1 w1
           | (Inl err, b1, w1) \<Rightarrow> (Some err, b1, w1)
           | (Inr txt, b1, w1) \<Rightarrow>
               for_matches e j ms b1 (w1\<lparr>posted := posted w1 @ [(ch, txt)]\<rparr>)))"

text \<open>
  The outer loop, over the responders in their configured order: \<open>j['text']\<close> is read
  for each responder, and \<open>bot.reset()\<close> follows the matches of that responder.
\<close>

fun for_bots ::
  "env \<Rightarrow> event \<Rightarrow> responder list \<Rightarrow> world \<Rightarrow> error option \<times> responder list \<times> world" where
  "for_bots e j [] w = (None, [], w)"
| "for_bots e j (b # bs) w =
     (case j ''text'' of
        None \<Rightarrow> (Some (KeyError ''text''), b # bs, w)
      | Some (JStr text) \<Rightarrow>
          (case for_matches e j (match (bot_pattern b) text) b w of
             (Some err, b1, w1) \<Rightarrow> (Some err, b1 # bs, w1)
           | (None, b1, w1) \<Rightarrow>
               (case for_bots e j bs w1 of
                  (r, bs1, w2) \<Rightarrow> (r, reset b1 # bs1, w2)))
      | Some _ \<Rightarrow> (Some (TypeError ''expected string or bytes-like object''), b # bs, w))"

text \<open>
  \<open>process_slack_message\<close>, on the responders and the world of its dispatcher: the
  result is the exception that left the function, if any, and the responders and the
  world afterwards.
\<close>

definition process_slack_message ::
  "env \<Rightarrow> event \<Rightarrow> responder list \<Rightarrow> world \<Rightarrow> error option \<times> responder list \<times> world" where
  "process_slack_message e j link_bots w =
     (case j ''type'' of
        None \<Rightarrow> (Some (KeyError ''type''), link_bots, w)
      | Some t \<Rightarrow>
          if t = JStr ''message'' then
            (if (case j ''bot_id'' of None \<Rightarrow> False | Some v \<Rightarrow> truthy v)
             then (None, link_bots, w)
             else for_bots e j link_bots w)
          else (None, link_bots, w))"

text \<open>
  \<open>get_message_processor\<close>: the responders are built from the configured list
  (\<open>LINKBOTS\<close>, \<open>None\<close> when the configuration module has no such attribute), each of the
  class that its \<open>LINK_CLASS\<close> names; a name that is none of the three classes is taken
  as a \<open>KeyError\<close> of the lookup. The message processor it returns is
  \<open>process_slack_message\<close> on the responders built here. The identity of the bot, which
  the function asks the transport for and passes on with every post, is not modelled.
\<close>

definition class_named :: "string \<Rightarrow> link_class option" where
  "class_named n =
     (if n = ''LinkBot'' then Some LinkBot
      else if n = ''JiraLinkBot'' then Some JiraLinkBot
      else if n = ''ServiceNowBot'' then Some ServiceNowBot
      else None)"

fun make_bots :: "conf list \<Rightarrow> world \<Rightarrow> error + responder list \<times> world" where
  "make_bots [] w = Inr ([], w)"
| "make_bots (c # cs) w =
     (let n = (case LINK_CLASS c of None \<Rightarrow> ''LinkBot'' | Some n \<Rightarrow> n) in
      case class_named n of
        None \<Rightarrow> Inl (KeyError n)
      | Some cls \<Rightarrow>
          (case init c cls w of
             (b, w1) \<Rightarrow>
               (case make_bots cs w1 of
                  Inl err \<Rightarrow> Inl err
                | Inr (bs, w2) \<Rightarrow> Inr (b # bs, w2))))"

definition get_message_processor :: "conf list option \<Rightarrow> world \<Rightarrow> error + responder list \<times> world" where
  "get_message_processor LINKBOTS w =
     (case make_bots (case LINKBOTS of None \<Rightarrow> [] | Some cs \<Rightarrow> cs) w of
        Inl err \<Rightarrow> Inl err
      | Inr (link_bots, w1) \<Rightarrow>
          if length link_bots = 0 then Inl (Exception ''No linkbots defined'')
          else Inr (link_bots, w1))"

section \<open>A sample configuration\<close>

text \<open>
  Concrete inputs for the examples below. \<open>startup qs\<close> is the world when the
  configuration module has been loaded: the list object of \<open>LinkBot.QUIPS\<close> and one
  configured quip list \<open>qs\<close> at address 1. \<open>quiet\<close> is an environment in which no
  record is found. \<open>chat t\<close> is a chat message with the text \<open>t\<close>, \<open>bot_chat t\<close> the same
  message sent by a bot.
\<close>

definition startup :: "string list \<Rightarrow> world" where
  "startup qs =
     \<lparr>store = (\<lambda>_. [])(QUIPS_ref := LinkBot_QUIPS, 1 := qs), fresh = 2, draws = 0,
      posted = []\<rparr>"

definition quiet :: env where
  "quiet =
     \<lparr>rnd = (\<lambda>_. 0),
      jira_issue = (\<lambda>_ _. Inl (ExternalError ''no connection'')),
      sn_http = (\<lambda>_ _ _. Empty_result)\<rparr>"

definition chat :: "string \<Rightarrow> event" where
  "chat t =
     [''type'' \<mapsto> JStr ''message'', ''text'' \<mapsto> JStr t, ''channel'' \<mapsto> JStr ''C1'']"

definition bot_chat :: "string \<Rightarrow> event" where
  "bot_chat t = (chat t)(''bot_id'' \<mapsto> JStr ''B1'')"

text \<open>
  The generic responder of the scenario: pattern \<open>ABC-123\<close>, link template
  \<open><%s|%s>\<close> and the quip list at address 1. \<open>abc_bot\<close> and \<open>started qs\<close> are the
  responder and the world that \<open>get_message_processor\<close> makes of it
  (\<open>abc_processor\<close> below).
\<close>

definition abc_conf :: conf where
  "abc_conf =
     \<lparr>MATCH = Some ''ABC-123'', LINK = Some ''<%s|%s>'', QUIPS = Some 1,
      LINK_CLASS = None, HOST = []\<rparr>"

definition abc_bot :: responder where
  "abc_bot =
     \<lparr>bot_class = LinkBot, bot_match = Some ''ABC-123'', bot_link = ''<%s|%s>'',
      bot_quips = 1, bot_quiplist = 2, bot_seen = [], bot_host = []\<rparr>"

definition started :: "string list \<Rightarrow> world" where
  "started qs = (startup qs)\<lparr>store := (store (startup qs))(2 := []), fresh := 3\<rparr>"


definition one_slot_bot :: responder where
  "one_slot_bot = abc_bot\<lparr>bot_link := ''<%s>''\<rparr>"

text \<open>
  A ticketing-system responder for the number \<open>REQ123\<close>, and an environment \<open>desk\<close>
  whose ticketing system holds a record for every number, with a subject that has a
  \<open><\<close> and a \<open>&\<close> in it.
\<close>

definition req_bot :: responder where
  "req_bot =
     \<lparr>bot_class = ServiceNowBot, bot_match = Some ''REQ123'', bot_link = ''%s|%s'',
      bot_quips = 1, bot_quiplist = 2, bot_seen = [], bot_host = ''https://sn''\<rparr>"

definition req_record :: "string \<Rightarrow> ServiceNowRecord" where
  "req_record n =
     \<lparr>short_description = ''a<b & c'', number = n, parent = [], state = ''Open'',
      assigned_to = [], opened_by = [], sys_updated_on = []\<rparr>"

definition desk :: env where
  "desk = quiet\<lparr>sn_http := (\<lambda>_ _ n. Result (req_record n))\<rparr>"

text \<open>The reply of \<open>req_bot\<close> for \<open>REQ123\<close> in \<open>desk\<close>, as the code builds it.\<close>

definition req_link :: string where
  "req_link =
     ''<https://sn/u_simple_requests.do?sysparm_table=u_simple_requests''
     @ ''&sysparm_query=number%3DREQ123|REQ123>''"

definition req_reply :: string where
  "req_reply = req_link @ quote_sep @ ''a<b & c'' @ quote_sep @ ''*State* Open''"

section \<open>Bounded occurrences\<close>

text \<open>
  The matcher in the words of its specification. The pattern occurs at position \<open>i\<close> of
  the text, bounded on both sides: the text has the pattern there up to the case of
  letters, the character before it is no word character or there is none, and the
  character after it is no word character or there is none.
\<close>

definition bounded_at :: "string \<Rightarrow> string \<Rightarrow> nat \<Rightarrow> bool" where
  "bounded_at p t i =
     (i + length p \<le> length t \<and> ieq (take (length p) (drop i t)) p
      \<and> (i = 0 \<or> \<not> is_word (t ! (i - 1)))
      \<and> (i + length p = length t \<or> \<not> is_word (t ! (i + length p))))"

text \<open>
  The texts of the bounded occurrences from position \<open>i\<close> on, from left to right, where
  the next occurrence begins at least two characters behind the end of the one before:
  the character that closes one occurrence does not open the next.
\<close>

function labels_from :: "string \<Rightarrow> string \<Rightarrow> nat \<Rightarrow> string list" where
  "labels_from p t i =
     (if length t < i then []
      else if bounded_at p t i then
        take (length p) (drop i t) # labels_from p t (i + length p + 2)
      else labels_from p t (Suc i))"
  by pat_completeness auto
termination
  by (relation "measure (\<lambda>(p, t, i). Suc (length t) - i)") auto

declare labels_from.simps [simp del]

section \<open>More sample data\<close>

text \<open>A configured list of two quips.\<close>

definition two_quips :: "string list" where
  "two_quips = [''Look: %s'', ''See %s'']"

section \<open>Construction of the dispatcher\<close>

lemma abc_processor:
  "get_message_processor (Some [abc_conf]) (startup qs) = Inr ([abc_bot], started qs)"
  by (simp add: get_message_processor_def abc_conf_def startup_def class_named_def init_def
      abc_bot_def started_def)

lemma make_bots_length: "make_bots cs w = Inr (bs, w1) \<Longrightarrow> length bs = length cs"
  by (induction cs arbitrary: w bs w1)
    (auto simp: Let_def split: option.splits prod.splits sum.splits)

text \<open>
  C9. When the configured list of responders is missing or empty,
  \<open>get_message_processor\<close> raises the exception \<open>No linkbots defined\<close>, in every world:
  no message processor is returned.
\<close>

theorem no_bots_no_processor:
  "get_message_processor None w = Inl (Exception ''No linkbots defined'')
   \<and> get_message_processor (Some []) w = Inl (Exception ''No linkbots defined'')"
  by (simp add: get_message_processor_def)

section \<open>Events the dispatcher ignores\<close>

text \<open>
  C8. An event whose \<open>type\<close> is not \<open>message\<close>, or whose \<open>bot_id\<close> is present and
  not empty, leaves the responders and the world (store, draws and posted replies) as
  they were; when the event has a \<open>type\<close> the dispatcher returns without an exception.
\<close>

theorem ignored_event:
  assumes "(\<exists>t. j ''type'' = Some t \<and> t \<noteq> JStr ''message'')
           \<or> (\<exists>v. j ''bot_id'' = Some v \<and> truthy v)"
  shows "snd (process_slack_message e j link_bots w) = (link_bots, w)
         \<and> (j ''type'' \<noteq> None \<longrightarrow> fst (process_slack_message e j link_bots w) = None)"
  using assms by (auto simp: process_slack_message_def split: option.splits)

theorem ignored_event_witness:
  "bot_chat ''see ABC-123 please'' ''bot_id'' = Some (JStr ''B1'')
   \<and> truthy (JStr ''B1'')
   \<and> process_slack_message quiet (bot_chat ''see ABC-123 please'')
        [abc_bot] (started []) = (None, [abc_bot], started [])"
  using ignored_event [of "bot_chat ''see ABC-123 please''" quiet "[abc_bot]" "started []"]
  by (simp add: chat_def bot_chat_def prod_eq_iff)

section \<open>A generic responder without quips\<close>

lemma match_see_abc: "match ''ABC-123'' ''see ABC-123 please'' = [''ABC-123'']"
  by code_simp

lemma quip_empty:
  "store w (bot_quips b) = [] \<Longrightarrow> store w (bot_quiplist b) = [] \<Longrightarrow>
   quip e lnk b w = (Inr lnk, b\<lparr>bot_quiplist := bot_quips b\<rparr>, w)"
  by (simp add: quip_def Let_def)

lemma abc_message:
  "message e ''ABC-123'' abc_bot (started []) =
     (Inr ''<ABC-123|ABC-123>'', abc_bot\<lparr>bot_seen := [''ABC-123''], bot_quiplist := 1\<rparr>,
      started [])"
  by (simp add: message_def LinkBot_message_def message_text_def quip_def Let_def
      abc_bot_def started_def startup_def QUIPS_ref_def)

lemma abc_scenario:
  "process_slack_message e (chat ''see ABC-123 please'') [abc_bot] (started []) =
     (None, [abc_bot\<lparr>bot_quiplist := 1\<rparr>],
      (started [])\<lparr>posted := [(JStr ''C1'', ''<ABC-123|ABC-123>'')]\<rparr>)"
  using abc_message [of e]
  by (simp add: process_slack_message_def chat_def bot_pattern_def match_see_abc reset_def
      abc_bot_def started_def startup_def)

text \<open>
  C6. A generic responder whose configured quip list is empty, and whose pool is
  empty, answers a label it has not seen with the bare link: the link template with the
  label in both places, when that formats. The empty pool is bound to the empty
  configured list, \<open>choice\<close> raises \<open>IndexError\<close>, and the link is returned as it is.
  In the scenario, the dispatcher built from the configuration with pattern \<open>ABC-123\<close>,
  link template \<open><%s|%s>\<close> and no quips posts exactly one reply for the text
  \<open>see ABC-123 please\<close>, the text \<open><ABC-123|ABC-123>\<close>, to the channel of the event.
\<close>

theorem empty_quips_bare_link:
  "(bot_class b = LinkBot \<and> store w (bot_quips b) = [] \<and> store w (bot_quiplist b) = []
    \<and> link_label \<notin> set (bot_seen b) \<and> fmt (bot_link b) [link_label, link_label] = Inr lnk
    \<longrightarrow> message e link_label b w =
          (Inr lnk, b\<lparr>bot_seen := bot_seen b @ [link_label], bot_quiplist := bot_quips b\<rparr>, w))
   \<and> get_message_processor (Some [abc_conf]) (startup []) = Inr ([abc_bot], started [])
   \<and> process_slack_message e (chat ''see ABC-123 please'') [abc_bot] (started []) =
       (None, [abc_bot\<lparr>bot_quiplist := 1\<rparr>],
        (started [])\<lparr>posted := [(JStr ''C1'', ''<ABC-123|ABC-123>'')]\<rparr>)"
proof (intro conjI impI)
  assume "bot_class b = LinkBot \<and> store w (bot_quips b) = [] \<and> store w (bot_quiplist b) = []
    \<and> link_label \<notin> set (bot_seen b) \<and> fmt (bot_link b) [link_label, link_label] = Inr lnk"
  then show "message e link_label b w =
          (Inr lnk, b\<lparr>bot_seen := bot_seen b @ [link_label], bot_quiplist := bot_quips b\<rparr>, w)"
    by (simp add: message_def LinkBot_message_def message_text_def quip_empty)
next
  show "get_message_processor (Some [abc_conf]) (startup []) = Inr ([abc_bot], started [])"
    by (rule abc_processor)
next
  show "process_slack_message e (chat ''see ABC-123 please'') [abc_bot] (started []) =
       (None, [abc_bot\<lparr>bot_quiplist := 1\<rparr>],
        (started [])\<lparr>posted := [(JStr ''C1'', ''<ABC-123|ABC-123>'')]\<rparr>)"
    by (rule abc_scenario)
qed

theorem empty_quips_bare_link_witness:
  "bot_class abc_bot = LinkBot \<and> store (started []) (bot_quips abc_bot) = []
   \<and> store (started []) (bot_quiplist abc_bot) = []
   \<and> ''ABC-123'' \<notin> set (bot_seen abc_bot)
   \<and> fmt (bot_link abc_bot) [''ABC-123'', ''ABC-123''] = Inr ''<ABC-123|ABC-123>''
   \<and> fst (message quiet ''ABC-123'' abc_bot (started [])) = Inr ''<ABC-123|ABC-123>''"
  using empty_quips_bare_link [of abc_bot "started []" "''ABC-123''" "''<ABC-123|ABC-123>''" quiet]
  by (simp add: abc_bot_def started_def startup_def QUIPS_ref_def)

section \<open>Events with a missing field\<close>







section \<open>The seen list after an event\<close>

lemma for_bots_seen:
  "for_bots e j bs w = (None, bs1, w1) \<Longrightarrow> \<forall>b\<in>set bs1. bot_seen b = []"
proof (induction bs arbitrary: bs1 w w1)
  case Nil
  then show ?case by simp
next
  case (Cons b bs)
  then show ?case
    by (auto simp: reset_def split: option.splits json.splits prod.splits)
qed

text \<open>
  C2, as the code has it. \<open>reset\<close> follows the matches of each responder and is not in
  a \<open>finally\<close> clause. When the dispatcher handles a chat message and returns without an
  exception, the seen list of every responder is empty afterwards; for an event it
  ignores the seen lists stay as they were, empty when they were empty. A failed lookup
  of the issue tracker is caught inside \<open>message\<close> and is such a return. An exception
  that leaves \<open>message\<close> leaves the dispatcher too, and the responder that raised it
  is not reset.
\<close>

theorem seen_empty_after_dispatch:
  assumes "process_slack_message e j link_bots w = (None, bs1, w1)"
    and "(j ''type'' = Some (JStr ''message'')
          \<and> \<not> (case j ''bot_id'' of None \<Rightarrow> False | Some v \<Rightarrow> truthy v))
         \<or> (\<forall>b\<in>set link_bots. bot_seen b = [])"
  shows "\<forall>b\<in>set bs1. bot_seen b = []"
proof (cases "j ''type'' = Some (JStr ''message'')
          \<and> \<not> (case j ''bot_id'' of None \<Rightarrow> False | Some v \<Rightarrow> truthy v)")
  case True
  with assms(1) have "for_bots e j link_bots w = (None, bs1, w1)"
    by (simp add: process_slack_message_def)
  then show ?thesis by (rule for_bots_seen)
next
  case False
  with assms(1) have "bs1 = link_bots"
    by (auto simp: process_slack_message_def split: option.splits if_splits)
  with False assms(2) show ?thesis by blast
qed

theorem seen_empty_after_dispatch_witness:
  "process_slack_message quiet (chat ''see ABC-123 please'') [abc_bot] (started []) =
     (None, [abc_bot\<lparr>bot_quiplist := 1\<rparr>],
      (started [])\<lparr>posted := [(JStr ''C1'', ''<ABC-123|ABC-123>'')]\<rparr>)
   \<and> chat ''see ABC-123 please'' ''type'' = Some (JStr ''message'')
   \<and> chat ''see ABC-123 please'' ''bot_id'' = None
   \<and> map bot_seen [abc_bot\<lparr>bot_quiplist := 1\<rparr>] = [[]]"
proof -
  have r: "process_slack_message quiet (chat ''see ABC-123 please'') [abc_bot] (started []) =
     (None, [abc_bot\<lparr>bot_quiplist := 1\<rparr>],
      (started [])\<lparr>posted := [(JStr ''C1'', ''<ABC-123|ABC-123>'')]\<rparr>)"
    by (rule abc_scenario)
  have h: "chat ''see ABC-123 please'' ''type'' = Some (JStr ''message'')
      \<and> chat ''see ABC-123 please'' ''bot_id'' = None"
    by (simp add: chat_def)
  then have "\<forall>b\<in>set [abc_bot\<lparr>bot_quiplist := 1\<rparr>]. bot_seen b = []"
    using seen_empty_after_dispatch [OF r] by simp
  then have "map bot_seen [abc_bot\<lparr>bot_quiplist := 1\<rparr>] = [[]]" by simp
  with r h show ?thesis by blast
qed

text \<open>
  A link template with one place for the label makes \<open>message\<close> raise \<open>TypeError\<close>
  after the label has been added to the seen list; the dispatcher is left with that
  label still in the list.
\<close>

theorem seen_left_counterexample:
  "fst (process_slack_message quiet (chat ''see ABC-123 please'') [one_slot_bot] (started []))
     = Some (TypeError ''not all arguments converted during string formatting'')
   \<and> map bot_seen (fst (snd (process_slack_message quiet (chat ''see ABC-123 please'')
        [one_slot_bot] (started [])))) = [[''ABC-123'']]"
  by (simp add: process_slack_message_def chat_def bot_pattern_def one_slot_bot_def abc_bot_def
      match_see_abc message_def LinkBot_message_def)

section \<open>Labels already seen\<close>

text \<open>
  The generic and the issue-tracker responder refuse a label that is in their seen
  list, and change nothing.
\<close>

lemma seen_label_refused:
  assumes "bot_class b \<noteq> ServiceNowBot" and "link_label \<in> set (bot_seen b)"
  shows "message e link_label b w = (Inl (LinkBotSeenException link_label), b, w)"
  using assms
  by (cases "bot_class b") (simp_all add: message_def JiraLinkBot_message_def LinkBot_message_def)

lemma fmt_not_seen: "fmt t args \<noteq> Inl (LinkBotSeenException x)"
  by (induction t args rule: fmt.induct) (auto split: sum.splits list.splits)

lemma quip_keeps:
  "quip e lnk b w = (r, b1, w1) \<Longrightarrow>
   bot_class b1 = bot_class b \<and> bot_seen b1 = bot_seen b \<and> posted w1 = posted w
   \<and> r \<noteq> Inl (LinkBotSeenException x)"
  by (auto simp: quip_def Let_def fmt_not_seen split: if_splits)

lemma LinkBot_message_fresh:
  assumes "link_label \<notin> set (bot_seen b)"
    and "LinkBot_message e link_label b w = (r, b1, w1)"
  shows "bot_class b1 = bot_class b \<and> bot_seen b1 = bot_seen b @ [link_label]
         \<and> posted w1 = posted w \<and> r \<noteq> Inl (LinkBotSeenException x)"
proof (cases "fmt (bot_link b) [link_label, link_label]")
  case (Inl err)
  with assms show ?thesis
    using fmt_not_seen [of "bot_link b" "[link_label, link_label]" x]
    by (auto simp: LinkBot_message_def)
next
  case (Inr lnk)
  with assms have "quip e lnk (b\<lparr>bot_seen := bot_seen b @ [link_label]\<rparr>) w = (r, b1, w1)"
    by (simp add: LinkBot_message_def message_text_def)
  from quip_keeps [OF this, of x] show ?thesis by simp
qed

lemma message_fresh:
  assumes "bot_class b \<noteq> ServiceNowBot" and "link_label \<notin> set (bot_seen b)"
    and "message e link_label b w = (r, b1, w1)"
  shows "bot_class b1 = bot_class b \<and> bot_seen b1 = bot_seen b @ [link_label]
         \<and> posted w1 = posted w \<and> r \<noteq> Inl (LinkBotSeenException x)"
proof (cases "bot_class b")
  case LinkBot
  with assms show ?thesis
    using LinkBot_message_fresh [of link_label b e w r b1 w1 x] by (simp add: message_def)
next
  case JiraLinkBot
  obtain r0 b0 w0 where l: "LinkBot_message e link_label b w = (r0, b0, w0)"
    by (cases "LinkBot_message e link_label b w")
  note f = LinkBot_message_fresh [OF assms(2) l, of x]
  from assms(3) JiraLinkBot l have "b1 = b0 \<and> w1 = w0 \<and> (r = r0 \<or> (\<exists>t. r = Inr t))"
    by (auto simp: message_def JiraLinkBot_message_def Let_def split: sum.splits)
  with f show ?thesis by auto
next
  case ServiceNowBot
  with assms show ?thesis by simp
qed

text \<open>
  For the matches of one event, a generic or an issue-tracker responder posts at most
  as many replies as there are distinct labels among the matches that it has not seen:
  no label is answered twice.
\<close>

lemma for_matches_replies:
  assumes "bot_class b \<noteq> ServiceNowBot" and "for_matches e j ms b w = (r, b1, w1)"
  shows "\<exists>new. posted w1 = posted w @ new \<and> length new \<le> card (set ms - set (bot_seen b))"
  using assms
proof (induction ms arbitrary: b w)
  case Nil
  then show ?case by simp
next
  case (Cons m ms)
  show ?case
  proof (cases "j ''channel''")
    case None
    with Cons.prems show ?thesis by simp
  next
    case (Some ch)
    show ?thesis
    proof (cases "m \<in> set (bot_seen b)")
      case True
      with Cons.prems(1) have "message e m b w = (Inl (LinkBotSeenException m), b, w)"
        by (rule seen_label_refused)
      with Cons.prems(2) Some have "for_matches e j ms b w = (r, b1, w1)" by simp
      from Cons.IH [OF Cons.prems(1) this] obtain new where
        n: "posted w1 = posted w @ new" "length new \<le> card (set ms - set (bot_seen b))"
        by blast
      from True have "set (m # ms) - set (bot_seen b) = set ms - set (bot_seen b)" by auto
      with n show ?thesis by auto
    next
      case False
      obtain r0 b0 w0 where m: "message e m b w = (r0, b0, w0)"
        by (cases "message e m b w")
      from message_fresh [OF Cons.prems(1) False m] have
        k: "bot_class b0 = bot_class b" "bot_seen b0 = bot_seen b @ [m]" "posted w0 = posted w"
          "\<And>x. r0 \<noteq> Inl (LinkBotSeenException x)"
        by auto
      show ?thesis
      proof (cases r0)
        case (Inl err)
        with k(4) Cons.prems(2) Some m have "w1 = w0"
          by (cases err) auto
        with k(3) show ?thesis by simp
      next
        case (Inr reply)
        with Cons.prems(2) Some m have
          "for_matches e j ms b0 (w0\<lparr>posted := posted w0 @ [(ch, reply)]\<rparr>) = (r, b1, w1)"
          by simp
        from Cons.IH [OF _ this] k(1) Cons.prems(1) obtain new where
          n: "posted w1 = posted w0 @ [(ch, reply)] @ new"
             "length new \<le> card (set ms - set (bot_seen b0))"
          by auto
        have "set (m # ms) - set (bot_seen b) = insert m (set ms - set (bot_seen b0))"
          using False k(2) by auto
        moreover have "m \<notin> set ms - set (bot_seen b0)" using k(2) by simp
        ultimately have "card (set (m # ms) - set (bot_seen b)) = Suc (card (set ms - set (bot_seen b0)))"
          by simp
        with n k(3) show ?thesis by (intro exI [of _ "(ch, reply) # new"]) simp
      qed
    qed
  qed
qed

text \<open>
  C1 at the ticketing-system responder. \<open>ServiceNowBot.message\<close> neither reads nor
  writes the seen list: for the text \<open>REQ123 and REQ123 again\<close> the matcher returns the
  label twice, the dispatcher returns without an exception and has posted the same
  reply twice.
\<close>

theorem sn_label_twice_two_replies:
  "match (bot_pattern req_bot) ''REQ123 and REQ123 again'' = [''REQ123'', ''REQ123'']
   \<and> fst (process_slack_message desk (chat ''REQ123 and REQ123 again'') [req_bot] (started []))
       = None
   \<and> posted (snd (snd (process_slack_message desk (chat ''REQ123 and REQ123 again'') [req_bot]
        (started [])))) = [(JStr ''C1'', req_reply), (JStr ''C1'', req_reply)]"
  by code_simp

section \<open>Failed lookups\<close>

text \<open>
  The issue-tracker responder catches every exception of its lookup and returns the
  reply of the base class.
\<close>

lemma LinkBot_message_host:
  "LinkBot_message e link_label b w = (r, b1, w1) \<Longrightarrow> bot_host b1 = bot_host b"
  by (auto simp: LinkBot_message_def message_text_def quip_def Let_def
      split: if_splits sum.splits)

lemma jira_lookup_failure:
  assumes "bot_class b = JiraLinkBot" and "jira_issue e (bot_host b) link_label = Inl err"
  shows "message e link_label b w = LinkBot_message e link_label b w"
proof (cases "LinkBot_message e link_label b w")
  case (fields r b1 w1)
  then have "bot_host b1 = bot_host b" by (rule LinkBot_message_host)
  with assms fields show ?thesis
    by (cases r) (simp_all add: message_def JiraLinkBot_message_def)
qed

text \<open>
  C4 at the ticketing-system responder. \<open>ServiceNowBot.message\<close> calls the client
  outside any \<open>try\<close>: when no record is found, \<open>message\<close> raises the \<open>KeyError\<close> of the
  client, the dispatcher is left by that exception, and nothing is posted.
\<close>

theorem sn_lookup_failure_no_reply:
  "fst (message quiet ''REQ123'' req_bot (started [])) = Inl (KeyError ''REQ123 not found'')
   \<and> fst (process_slack_message quiet (chat ''see REQ123 please'') [req_bot] (started []))
       = Some (KeyError ''REQ123 not found'')
   \<and> posted (snd (snd (process_slack_message quiet (chat ''see REQ123 please'') [req_bot]
        (started [])))) = []"
  by code_simp

section \<open>Escaping\<close>

lemma escape_html_Nil: "escape_html [] = []"
  by (simp add: escape_html_def)

lemma escape_html_Cons:
  "escape_html (c # cs) =
     (if c = CHR ''&'' then ''&amp;'' else if c = CHR ''<'' then ''&lt;''
      else if c = CHR ''>'' then ''&gt;'' else [c]) @ escape_html cs"
  by (simp add: escape_html_def escaped_def)

lemma escape_html_append: "escape_html (xs @ ys) = escape_html xs @ escape_html ys"
  by (simp add: escape_html_def)

text \<open>The issue-tracker responder escapes each of the four lines it adds.\<close>

lemma jira_lines_escaped:
  assumes "bot_class b = JiraLinkBot"
    and "LinkBot_message e link_label b w = (Inr msg, b1, w1)"
    and "jira_issue e (bot_host b1) link_label = Inr i"
  shows "fst (message e link_label b w) =
     Inr (join quote_sep
       [msg, escape_html (summary i), escape_html (''*Reporter* '' @ get_name (reporter i)),
        escape_html (''*Assignee* '' @ get_name (assignee i)),
        escape_html (''*Status* '' @ status i)])"
  using assms by (simp add: message_def JiraLinkBot_message_def)

text \<open>
  C7 at the ticketing-system responder. \<open>ServiceNowBot.message\<close> does not call
  \<open>_escape_html\<close>: the subject \<open>a<b & c\<close> is in the reply as the service sent it, where
  the escaped text would be \<open>a&lt;b &amp; c\<close>.
\<close>

theorem sn_subject_not_escaped:
  "client_get (sn_http desk (bot_host req_bot)) ''REQ123'' = Inr (req_record ''REQ123'')
   \<and> short_description (req_record ''REQ123'') = ''a<b & c''
   \<and> escape_html ''a<b & c'' = ''a&lt;b &amp; c''
   \<and> fst (message desk ''REQ123'' req_bot (started []))
       = Inr (req_link @ quote_sep @ ''a<b & c'' @ quote_sep @ ''*State* Open'')"
  by code_simp

section \<open>What the matcher returns\<close>

lemma closing_drop:
  "m \<le> length t \<Longrightarrow>
   closing (drop m t) =
     (if m = length t then Some 0 else if is_word (t ! m) then None else Some 1)"
  by (cases "m = length t") (simp_all add: closing_def Cons_nth_drop_Suc [symmetric])

lemma try_from_bounded:
  assumes "k \<le> length s"
  shows "try_from p s k =
     (if k + length p \<le> length s \<and> ieq (take (length p) (drop k s)) p
         \<and> (k + length p = length s \<or> \<not> is_word (s ! (k + length p)))
      then Some (take (length p) (drop k s),
                 k + length p + (if k + length p = length s then 0 else 1))
      else None)"
proof (cases "k + length p \<le> length s")
  case True
  then have "closing (drop (length p) (drop k s)) =
     (if k + length p = length s then Some 0
      else if is_word (s ! (k + length p)) then None else Some 1)"
    using closing_drop [of "k + length p" s] by (simp add: add.commute)
  with True show ?thesis
    by (simp add: try_from_def pat_at_def Let_def)
next
  case False
  with assms have "\<not> length p \<le> length s - k" by arith
  with False show ?thesis
    by (simp add: try_from_def pat_at_def Let_def)
qed

lemma match_here_inner:
  assumes "k < length t"
  shows "match_here False p (drop k t) =
     (if bounded_at p t (Suc k) then
        Some (take (length p) (drop (Suc k) t),
              Suc (length p) + (if Suc k + length p = length t then 0 else 1))
      else None)"
proof -
  from assms have d: "drop k t = t ! k # drop (Suc k) t"
    by (simp add: Cons_nth_drop_Suc)
  show ?thesis
  proof (cases "is_word (t ! k)")
    case True
    with d show ?thesis by (simp add: match_here_def bounded_at_def)
  next
    case False
    from assms have l: "Suc 0 \<le> length (drop k t)" by simp
    note tf = try_from_bounded [OF l, of p]
    have n: "Suc (length p) \<le> length t - k \<Longrightarrow> drop k t ! Suc (length p) = t ! Suc (k + length p)"
      using assms by simp
    have e: "(Suc (length p) \<le> length t - k) = (Suc (k + length p) \<le> length t)"
      using assms by arith
    have e2: "(Suc (length p) = length t - k) = (Suc (k + length p) = length t)"
      using assms by arith
    from False d have "match_here False p (drop k t) = try_from p (drop k t) (Suc 0)"
      by (simp add: match_here_def)
    also have "\<dots> = (if bounded_at p t (Suc k) then
        Some (take (length p) (drop (Suc k) t),
              Suc (length p) + (if Suc k + length p = length t then 0 else 1))
      else None)"
      using False n e e2 assms by (auto simp add: tf bounded_at_def)
    finally show ?thesis .
  qed
qed

lemma match_here_end: "match_here False p [] = None"
  by (simp add: match_here_def)

lemma labels_from_beyond: "length t < i \<Longrightarrow> labels_from p t i = []"
  by (simp add: labels_from.simps)

lemma findall_inner:
  "k \<le> length t \<Longrightarrow> findall_from False p (drop k t) = labels_from p t (Suc k)"
proof (induction "length t - k" arbitrary: k rule: less_induct)
  case less
  show ?case
  proof (cases "k = length t")
    case True
    then show ?thesis
      by (simp add: findall_from.simps [of False p "[]"] match_here_end labels_from_beyond)
  next
    case False
    with less.prems have k: "k < length t" by simp
    then have d: "drop k t = t ! k # drop (Suc k) t"
      by (simp add: Cons_nth_drop_Suc)
    show ?thesis
    proof (cases "bounded_at p t (Suc k)")
      case True
      let ?n = "Suc (length p) + (if Suc k + length p = length t then 0 else 1)"
      from True have b: "Suc k + length p \<le> length t" by (simp add: bounded_at_def)
      have f: "findall_from False p (drop k t) =
          take (length p) (drop (Suc k) t) # findall_from False p (drop (k + ?n) t)"
        using True k
        by (simp add: findall_from.simps [of False p "drop k t"] match_here_inner add.commute)
      have r: "findall_from False p (drop (k + ?n) t) = labels_from p t (Suc k + length p + 2)"
      proof (cases "Suc k + length p = length t")
        case True
        then show ?thesis
          by (simp add: findall_from.simps [of False p "[]"] match_here_end labels_from_beyond)
      next
        case False
        with b have "k + ?n \<le> length t" and "length t - (k + ?n) < length t - k"
          by auto
        then have "findall_from False p (drop (k + ?n) t) = labels_from p t (Suc (k + ?n))"
          using less.hyps [of "k + ?n"] by blast
        with False show ?thesis by simp
      qed
      have "labels_from p t (Suc k) =
          take (length p) (drop (Suc k) t) # labels_from p t (Suc k + length p + 2)"
        using True k by (simp add: labels_from.simps [of p t "Suc k"])
      with f r show ?thesis by simp
    next
      case False
      have "findall_from False p (drop k t) = findall_from False p (drop (Suc k) t)"
        using False k d
        by (simp add: findall_from.simps [of False p "t ! k # drop (Suc k) t"]
            match_here_inner [OF k, of p, unfolded d])
      also have "\<dots> = labels_from p t (Suc (Suc k))"
        using less.hyps [of "Suc k"] k by simp
      also have "\<dots> = labels_from p t (Suc k)"
        using False k by (simp add: labels_from.simps [of p t "Suc k"])
      finally show ?thesis .
    qed
  qed
qed

lemma labels_from_skip:
  "\<not> bounded_at p t i \<Longrightarrow> i \<le> length t \<Longrightarrow> labels_from p t i = labels_from p t (Suc i)"
  by (simp add: labels_from.simps [of p t i])

lemma findall_start_unbounded:
  assumes "\<not> bounded_at p t 0"
  shows "findall_from True p t = labels_from p t 0"
proof -
  from assms have n: "try_from p t 0 = None"
    using try_from_bounded [of 0 t p] by (simp add: bounded_at_def)
  then have "match_here True p t = match_here False p t"
    by (simp add: match_here_def)
  then have "findall_from True p t = findall_from False p t"
    by (simp add: findall_from.simps [of True p t] findall_from.simps [of False p t])
  also have "\<dots> = labels_from p t (Suc 0)"
    using findall_inner [of 0 t p] by simp
  also have "\<dots> = labels_from p t 0"
    using assms by (simp add: labels_from_skip)
  finally show ?thesis .
qed

lemma findall_start_bounded:
  assumes "bounded_at p t 0"
  shows "findall_from True p t = labels_from p t 0"
proof -
  let ?n = "length p + (if length p = length t then 0 else 1)"
  from assms have b: "length p \<le> length t" by (simp add: bounded_at_def)
  from assms have m: "match_here True p t = Some (take (length p) t, ?n)"
    using try_from_bounded [of 0 t p] by (simp add: bounded_at_def match_here_def)
  have l: "labels_from p t 0 = take (length p) t # labels_from p t (length p + 2)"
    using assms by (simp add: labels_from.simps [of p t 0])
  show ?thesis
  proof (cases "length p = length t")
    case True
    then have "labels_from p t (length p + 2) = []"
      by (simp add: labels_from_beyond)
    moreover from True have "findall_from True p t = [take (length p) t]"
      using m
      by (simp add: findall_from.simps [of True p t] findall_from.simps [of False p "[]"]
          match_here_end)
    ultimately show ?thesis using l by simp
  next
    case False
    with b have "Suc (length p) \<le> length t" by simp
    then have "findall_from False p (drop (Suc (length p)) t) = labels_from p t (length p + 2)"
      using findall_inner [of "Suc (length p)" t p] by simp
    moreover from False have "findall_from True p t =
        take (length p) t # findall_from False p (drop (Suc (length p)) t)"
      using m by (simp add: findall_from.simps [of True p t])
    ultimately show ?thesis using l by simp
  qed
qed

lemma match_labels_from: "match p t = labels_from p t 0"
  unfolding match_def
  by (cases "bounded_at p t 0") (simp_all add: findall_start_bounded findall_start_unbounded)

lemma labels_from_sound:
  "lab \<in> set (labels_from p t i) \<Longrightarrow>
   \<exists>k\<ge>i. bounded_at p t k \<and> lab = take (length p) (drop k t)"
proof (induction p t i rule: labels_from.induct)
  case (1 p t i)
  show ?case
  proof (cases "length t < i")
    case True
    with "1.prems" show ?thesis by (simp add: labels_from.simps [of p t i])
  next
    case False
    show ?thesis
    proof (cases "bounded_at p t i")
      case True
      with False "1.prems" have
        "lab = take (length p) (drop i t) \<or> lab \<in> set (labels_from p t (i + length p + 2))"
        by (simp add: labels_from.simps [of p t i])
      then show ?thesis
      proof
        assume "lab = take (length p) (drop i t)"
        with True show ?thesis by blast
      next
        assume "lab \<in> set (labels_from p t (i + length p + 2))"
        with "1.IH"(1) False True obtain k where "i + length p + 2 \<le> k"
          and "bounded_at p t k \<and> lab = take (length p) (drop k t)" by blast
        then show ?thesis by (intro exI [of _ k]) simp
      qed
    next
      case nb: False
      with False "1.prems" have "lab \<in> set (labels_from p t (Suc i))"
        by (simp add: labels_from.simps [of p t i])
      with "1.IH"(2) False nb obtain k where "Suc i \<le> k"
        and "bounded_at p t k \<and> lab = take (length p) (drop k t)" by blast
      then show ?thesis by (intro exI [of _ k]) simp
    qed
  qed
qed

lemma labels_from_complete:
  "bounded_at p t k \<Longrightarrow> i \<le> k \<Longrightarrow> labels_from p t i \<noteq> []"
proof (induction p t i rule: labels_from.induct)
  case (1 p t i)
  from "1.prems"(1) have kt: "k \<le> length t" by (simp add: bounded_at_def)
  with "1.prems"(2) have it: "\<not> length t < i" by simp
  show ?case
  proof (cases "bounded_at p t i")
    case True
    with it show ?thesis by (simp add: labels_from.simps [of p t i])
  next
    case False
    with "1.prems" have "Suc i \<le> k" by (cases "i = k") auto
    with "1.IH"(2) it False "1.prems"(1) have "labels_from p t (Suc i) \<noteq> []" by blast
    with it False show ?thesis by (simp add: labels_from.simps [of p t i])
  qed
qed

text \<open>
  What the matcher returns for a plain pattern: the texts of the bounded occurrences of
  the pattern from left to right, where an occurrence that begins less than two
  characters behind the end of the one returned before is left out, the match before
  having taken the character between them. Every label returned is the text of a
  bounded occurrence, equal to the pattern up to case; a text with no bounded
  occurrence, such as one with the pattern inside a larger token only, gives no label,
  and a text with a bounded occurrence gives at least one.
\<close>

lemma plain_match_bounded:
  assumes "plain p"
  shows "match p t = labels_from p t 0
   \<and> (\<forall>lab\<in>set (match p t). \<exists>i. bounded_at p t i \<and> lab = take (length p) (drop i t))
   \<and> ((\<exists>i. bounded_at p t i) \<longleftrightarrow> match p t \<noteq> [])"
proof -
  have a: "match p t = labels_from p t 0" by (rule match_labels_from)
  have b: "\<exists>i. bounded_at p t i \<and> lab = take (length p) (drop i t)"
    if "lab \<in> set (match p t)" for lab
    using that labels_from_sound [of lab p t 0] by (auto simp: a)
  have c: "match p t \<noteq> []" if "bounded_at p t i" for i
    using that labels_from_complete [of p t i 0] by (simp add: a)
  have d: "\<exists>i. bounded_at p t i" if "match p t \<noteq> []"
  proof -
    from that obtain lab where "lab \<in> set (match p t)" by (cases "match p t") auto
    with b show ?thesis by blast
  qed
  from a b c d show ?thesis by blast
qed

text \<open>The patterns of the sample responders are plain.\<close>

lemma sample_patterns_plain: "plain ''ABC-123'' \<and> plain ''REQ123'' \<and> plain ''None''"
  by code_simp

text \<open>
  C5 at two occurrences that share their delimiter. In the text \<open>ABC-123 ABC-123\<close> the
  plain pattern \<open>ABC-123\<close> occurs at positions 0 and 8, each time bounded on both sides
  by a non-word character or an end of the text, and the matcher returns one label: the
  first match takes the space, and the second occurrence has nothing left to open it.
  With two spaces between them both occurrences are returned.
\<close>

theorem shared_delimiter_one_label:
  "plain ''ABC-123''
   \<and> bounded_at ''ABC-123'' ''ABC-123 ABC-123'' 0
   \<and> bounded_at ''ABC-123'' ''ABC-123 ABC-123'' 8
   \<and> match ''ABC-123'' ''ABC-123 ABC-123'' = [''ABC-123'']
   \<and> match ''ABC-123'' ''ABC-123  ABC-123'' = [''ABC-123'', ''ABC-123'']"
  by code_simp

section \<open>The quip pool\<close>

text \<open>
  The pool and the configured list are one object from the first draw on: with an empty
  pool, \<open>_quip\<close> binds \<open>_quiplist\<close> to the object of \<open>_quips\<close>, and every draw removes
  a quip from that object. When it is empty there is nothing left to refill the pool
  from, and the draw returns the link alone and changes nothing.
\<close>

lemma quip_first_aliases:
  "store w (bot_quiplist b) = [] \<Longrightarrow> quip e lnk b w = (r, b1, w1) \<Longrightarrow>
   bot_quiplist b1 = bot_quips b \<and> bot_quips b1 = bot_quips b"
  by (auto simp: quip_def Let_def split: if_splits)

lemma quip_aliased:
  "bot_quiplist b = bot_quips b \<Longrightarrow> quip e lnk b w = (r, b1, w1) \<Longrightarrow>
   bot_quiplist b1 = bot_quips b1 \<and> bot_quips b1 = bot_quips b"
  by (auto simp: quip_def Let_def split: if_splits)

lemma quip_draw_shrinks:
  "bot_quiplist b = bot_quips b \<Longrightarrow> store w (bot_quips b) \<noteq> [] \<Longrightarrow>
   quip e lnk b w = (r, b1, w1) \<Longrightarrow>
   Suc (length (store w1 (bot_quips b))) = length (store w (bot_quips b))"
  by (auto simp: quip_def Let_def length_remove1 split: if_splits)

lemma quip_exhausted:
  "bot_quiplist b = bot_quips b \<Longrightarrow> store w (bot_quips b) = [] \<Longrightarrow>
   quip e lnk b w = (Inr lnk, b, w)"
  by (simp add: quip_def Let_def)

text \<open>
  C3 at a configured list of two quips. Three labels in one message make three draws:
  the first two use the two quips, which are removed from the configured list itself;
  the third finds the pool and the configured list empty, is not refilled, and the
  reply is the bare link.
\<close>

theorem quips_not_refilled:
  "store (started two_quips) (bot_quips abc_bot) = two_quips
   \<and> match (bot_pattern abc_bot) ''ABC-123  abc-123  Abc-123'' = [''ABC-123'', ''abc-123'', ''Abc-123'']
   \<and> map snd (posted (snd (snd (process_slack_message quiet (chat ''ABC-123  abc-123  Abc-123'')
        [abc_bot] (started two_quips)))))
       = [''Look: <ABC-123|ABC-123>'', ''See <abc-123|abc-123>'', ''<Abc-123|Abc-123>'']
   \<and> store (snd (snd (process_slack_message quiet (chat ''ABC-123  abc-123  Abc-123'')
        [abc_bot] (started two_quips)))) (bot_quips abc_bot) = []"
  by code_simp

end
